theory Spec2Isabelle
  imports Main "HOL-Library.Multiset" "HOL-Library.Char_ord" "HOL-Library.List_Lexorder"
begin

section \<open>Theme manager (js/theme.js)\<close>

text \<open>
  The two places the theme lives: the \<open>data-theme\<close> attribute of the document element
  (\<open>getAttribute\<close> gives \<open>null\<close> when it is absent) and the \<open>theme\<close> key of
  \<open>localStorage\<close> (\<open>getItem\<close> gives \<open>null\<close> when it is absent).
\<close>

record theme_state =
  dataTheme :: "string option"
  storedTheme :: "string option"

text \<open>\<open>localStorage.getItem('theme') || 'light'\<close>: \<open>null\<close> and the empty string are falsy.\<close>

definition initTheme :: "theme_state \<Rightarrow> theme_state" where
  "initTheme st =
     (let currentTheme = (case storedTheme st of
                            None \<Rightarrow> ''light''
                          | Some v \<Rightarrow> if v = [] then ''light'' else v)
      in st\<lparr>dataTheme := Some currentTheme\<rparr>)"

definition toggleTheme :: "theme_state \<Rightarrow> theme_state" where
  "toggleTheme st =
     (let currentTheme = dataTheme st;
          newTheme = (if currentTheme = Some ''light'' then ''dark'' else ''light'')
      in st\<lparr>dataTheme := Some newTheme, storedTheme := Some newTheme\<rparr>)"

section \<open>JavaScript built-ins used by the widgets\<close>

text \<open>
  Reading an array at an index: \<open>xs[i]\<close> is \<open>undefined\<close> (here \<open>None\<close>) outside
  \<open>0 .. length - 1\<close>. Reading a property of \<open>undefined\<close> throws a \<open>TypeError\<close>.
\<close>

datatype error = TypeError

definition at_index :: "'a list \<Rightarrow> int \<Rightarrow> 'a option" where
  "at_index xs i = (if 0 \<le> i \<and> i < int (length xs) then Some (xs ! nat i) else None)"

text \<open>\<open>String.prototype.includes\<close>: the argument occurs as a contiguous substring.\<close>

fun startsWith :: "'a list \<Rightarrow> 'a list \<Rightarrow> bool" where
  "startsWith s [] = True"
| "startsWith [] (p # ps) = False"
| "startsWith (c # cs) (p # ps) = (c = p \<and> startsWith cs ps)"

fun str_includes :: "'a list \<Rightarrow> 'a list \<Rightarrow> bool" where
  "str_includes [] sub = startsWith [] sub"
| "str_includes (c # cs) sub = (startsWith (c # cs) sub \<or> str_includes cs sub)"

text \<open>
  \<open>String.prototype.toLowerCase\<close> is a parameter of the functions that call it; this is
  its restriction to ASCII letters, for evaluating them on concrete inputs: a letter
  \<open>A .. Z\<close> (codes 65 to 90) gets bit 5 set, which adds 32.
\<close>

definition ascii_lower_char :: "char \<Rightarrow> char" where
  "ascii_lower_char c =
     (let n = (of_char c :: nat)
      in if 65 \<le> n \<and> n \<le> 90
         then (case c of Char b0 b1 b2 b3 b4 b5 b6 b7 \<Rightarrow> Char b0 b1 b2 b3 b4 True b6 b7)
         else c)"

definition ascii_toLowerCase :: "string \<Rightarrow> string" where
  "ascii_toLowerCase s = map ascii_lower_char s"

section \<open>Image gallery (js/gallery.js)\<close>

text \<open>
  The manifest \<open>notes-list.json\<close>: notes, each optionally carrying images. Field names
  that are taken in Isabelle, or that two records share, carry a prefix or suffix: an
  image's \<open>name\<close> and \<open>file\<close> are \<open>img_name\<close> and \<open>img_file\<close>, a note's \<open>folder\<close> and
  \<open>title\<close> are \<open>note_folder\<close> and \<open>note_title\<close>, \<open>data.notes\<close> is \<open>manifest_notes\<close>, and
  the \<open>file\<close> of a gallery entry is \<open>file_path\<close>.
\<close>

record manifest_image =
  img_name :: string
  img_file :: string

record note_entry =
  note_folder :: string
  note_title :: string
  hasImages :: bool
  images :: "manifest_image list option"

record manifest =
  manifest_notes :: "note_entry list"

text \<open>An entry of \<open>allImages\<close> and \<open>filteredImages\<close>.\<close>

record image_entry =
  name :: string
  file_path :: string
  folder :: string

text \<open>
  What the page shows: the heading, the content of the \<open>gallery\<close> element (its initial
  markup, the "No images found." block, one card per filtered image, or the "Error loading
  images" block), the image count (the number and the noun after it) and the lightbox.
\<close>

datatype header = PageHeader | AllImagesHeader | FolderHeader string

datatype gallery_view = InitialMarkup | NoImagesFound | Cards "image_entry list" | LoadError

record gallery =
  allImages :: "image_entry list"
  currentImageIndex :: int
  filteredImages :: "image_entry list"
  headerText :: header
  galleryHtml :: gallery_view
  imageCount :: "(nat \<times> string) option"
  lightboxImage :: string
  lightboxName :: string
  lightboxCounter :: "(int \<times> nat) option"
  lightboxActive :: bool

text \<open>The state when the script starts: \<open>allImages = []\<close>, \<open>currentImageIndex = 0\<close>,
  \<open>filteredImages = []\<close>, and the page as served.\<close>

definition initial_gallery :: gallery where
  "initial_gallery =
     \<lparr>allImages = [], currentImageIndex = 0, filteredImages = [],
      headerText = PageHeader, galleryHtml = InitialMarkup, imageCount = None,
      lightboxImage = [], lightboxName = [], lightboxCounter = None, lightboxActive = False\<rparr>"

definition loadGallery :: "gallery \<Rightarrow> gallery" where
  "loadGallery g =
     (if length (filteredImages g) = 0
      then g\<lparr>galleryHtml := NoImagesFound, imageCount := Some (0, ''images'')\<rparr>
      else g\<lparr>galleryHtml := Cards (filteredImages g),
             imageCount := Some (length (filteredImages g),
                                 ''image'' @ (if length (filteredImages g) \<noteq> 1 then ''s'' else []))\<rparr>)"

text \<open>The object built for one image of a note: \<open>file\<close> is the template
  \<open>${note.folder}/${img.file}\<close>.\<close>

definition entry_of :: "note_entry \<Rightarrow> manifest_image \<Rightarrow> image_entry" where
  "entry_of n img =
     \<lparr>name = img_name img, file_path = note_folder n @ ''/'' @ img_file img, folder = note_title n\<rparr>"

text \<open>
  \<open>loadImages\<close>: \<open>folderParam\<close> is the \<open>folder\<close> query parameter (\<open>None\<close> when the
  URL has none), \<open>fetched\<close> the manifest, \<open>None\<close> when \<open>fetch\<close> or \<open>response.json()\<close>
  rejects (the \<open>catch\<close> branch). The manifest has the shape of the record, and the page
  has the elements the script looks up, so nothing else in the \<open>try\<close> block throws.
\<close>

definition loadImages :: "string option \<Rightarrow> manifest option \<Rightarrow> gallery \<Rightarrow> gallery" where
  "loadImages folderParam fetched g =
     (case fetched of
        None \<Rightarrow> g\<lparr>galleryHtml := LoadError\<rparr>
      | Some data \<Rightarrow>
          let g1 =
            (if folderParam = Some ''all''
             then g\<lparr>headerText := AllImagesHeader,
                    allImages := allImages g @
                      concat (map (\<lambda>n. if hasImages n
                                         then (case images n of
                                                 None \<Rightarrow> []
                                               | Some imgs \<Rightarrow> map (entry_of n) imgs)
                                         else [])
                                  (manifest_notes data))\<rparr>
             else (case find (\<lambda>n. Some (note_folder n) = folderParam) (manifest_notes data) of
                     None \<Rightarrow> g
                   | Some n \<Rightarrow>
                       if hasImages n
                       then (case images n of
                               None \<Rightarrow> g
                             | Some imgs \<Rightarrow>
                                 g\<lparr>headerText := FolderHeader (note_title n),
                                   allImages := map (entry_of n) imgs\<rparr>)
                       else g))
          in loadGallery (g1\<lparr>filteredImages := allImages g1\<rparr>))"

text \<open>\<open>filterImages\<close>: \<open>searchBox\<close> is the value of the search box.\<close>

definition filterImages :: "(string \<Rightarrow> string) \<Rightarrow> string \<Rightarrow> gallery \<Rightarrow> gallery" where
  "filterImages toLowerCase searchBox g =
     (let search = toLowerCase searchBox
      in loadGallery
           (g\<lparr>filteredImages :=
                filter (\<lambda>img. str_includes (toLowerCase (name img)) search \<or>
                               str_includes (toLowerCase (folder img)) search)
                       (allImages g)\<rparr>))"

text \<open>
  \<open>openLightbox\<close> and \<open>navigateImage\<close> store the index first and read
  \<open>filteredImages\<close> at it afterwards; when no entry is there, \<open>img.file\<close> throws, and
  the result is \<open>Inl\<close> with the state at the throw.
\<close>

definition openLightbox :: "int \<Rightarrow> gallery \<Rightarrow> (error \<times> gallery) + gallery" where
  "openLightbox index g =
     (let g1 = g\<lparr>currentImageIndex := index\<rparr>
      in case at_index (filteredImages g1) index of
           None \<Rightarrow> Inl (TypeError, g1)
         | Some img \<Rightarrow>
             Inr (g1\<lparr>lightboxImage := file_path img, lightboxName := name img,
                     lightboxCounter := Some (index + 1, length (filteredImages g1)),
                     lightboxActive := True\<rparr>))"

definition navigateImage :: "int \<Rightarrow> gallery \<Rightarrow> (error \<times> gallery) + gallery" where
  "navigateImage direction g =
     (let i1 = currentImageIndex g + direction;
          i2 = (if i1 < 0 then int (length (filteredImages g)) - 1 else i1);
          i3 = (if i2 \<ge> int (length (filteredImages g)) then 0 else i2);
          g1 = g\<lparr>currentImageIndex := i3\<rparr>
      in case at_index (filteredImages g1) i3 of
           None \<Rightarrow> Inl (TypeError, g1)
         | Some img \<Rightarrow>
             Inr (g1\<lparr>lightboxImage := file_path img, lightboxName := name img,
                     lightboxCounter := Some (i3 + 1, length (filteredImages g1))\<rparr>))"

section \<open>Knowledge check engine (js/knowledgeCheck.js)\<close>

text \<open>
  The question manifest. An option's \<open>id\<close> and \<open>text\<close> are \<open>option_id\<close> and
  \<open>option_text\<close>; a question's \<open>id\<close>, \<open>question\<close> and \<open>options\<close> are \<open>question_id\<close>,
  \<open>question_text\<close> and \<open>question_options\<close>. Every option carries its \<open>explanation\<close>
  object, a sparse record kept here as the list of its fields with their lines of text.
  \<open>displayNumber\<close> is absent until \<open>shuffleQuestions\<close> assigns it.
\<close>

record option_entry =
  option_id :: string
  option_text :: string
  isCorrect :: bool
  explanation :: "(string \<times> string list) list"

record question =
  question_id :: int
  question_text :: string
  multiSelect :: bool
  question_options :: "option_entry list"
  displayNumber :: "int option"

text \<open>\<open>this.data\<close> is \<open>null\<close> until the manifest is loaded, and the manifest may lack
  \<open>questions\<close>.\<close>

record kc_data =
  questions :: "question list option"

text \<open>
  An entry of \<open>state.selectedAnswers\<close>: a string for a single-select question, an array of
  strings for a multi-select one; a missing key reads as \<open>undefined\<close> (here \<open>None\<close>).
\<close>

datatype answer = Single string | Multi "string list"

record engine =
  data :: "kc_data option"
  selectedAnswers :: "int \<rightharpoonup> answer"

text \<open>The engine as the constructor leaves it.\<close>

definition new_engine :: engine where
  "new_engine = \<lparr>data = None, selectedAnswers = Map.empty\<rparr>"

subsection \<open>Math.floor(Math.random() * (i + 1)) in double precision\<close>

text \<open>
  A number drawn by \<open>Math.random()\<close> is a double in \<open>[0, 1)\<close>. It is written as the pair
  \<open>(sig, scale)\<close> with the value \<open>sig / 2 ^ scale\<close>: \<open>sig\<close> has at most 53 bits, the
  value is below 1, and the exponent \<open>- scale\<close> is not below \<open>- 1074\<close>, the least exponent
  of a double. These pairs are the doubles in \<open>[0, 1)\<close>, each of them and nothing else.
\<close>

definition is_random_double :: "nat \<times> nat \<Rightarrow> bool" where
  "is_random_double r = (case r of (sig, scale) \<Rightarrow> sig < 2 ^ 53 \<and> sig < 2 ^ scale \<and> scale \<le> 1074)"

text \<open>
  The product with the integer \<open>n = i + 1\<close> (exact as a double for every index of an
  array) is \<open>sig * n / 2 ^ scale\<close>, rounded to the nearest double, ties to the even
  significand. \<open>excess_bits p\<close> is the number of bits by which \<open>p\<close> exceeds 53 bits;
  \<open>round_half_even p s\<close> is \<open>p / 2 ^ s\<close> rounded to the nearest integer, ties to even; so
  the product as a double is \<open>round_half_even p s * 2 ^ s / 2 ^ scale\<close> with \<open>p = sig * n\<close>
  and \<open>s = excess_bits p\<close>, and \<open>Math.floor\<close> of it is the quotient below.
\<close>

function excess_bits :: "nat \<Rightarrow> nat" where
  "excess_bits p = (if p < 2 ^ 53 then 0 else Suc (excess_bits (p div 2)))"
  by pat_completeness auto
termination
  by (relation "measure (\<lambda>p. p)") auto

declare excess_bits.simps [simp del]

definition round_half_even :: "nat \<Rightarrow> nat \<Rightarrow> nat" where
  "round_half_even p s =
     (let q = p div 2 ^ s; r = p mod 2 ^ s
      in if 2 * r < 2 ^ s then q
         else if 2 ^ s < 2 * r then q + 1
         else if even q then q else q + 1)"

definition floor_random_times :: "nat \<times> nat \<Rightarrow> nat \<Rightarrow> nat" where
  "floor_random_times r n =
     (case r of (sig, scale) \<Rightarrow>
        let p = sig * n; s = excess_bits p
        in (round_half_even p s * 2 ^ s) div 2 ^ scale)"

subsection \<open>shuffleQuestions\<close>

text \<open>
  \<open>Math.random()\<close> is a parameter: \<open>rnd i\<close> is the double drawn in the iteration with
  loop index \<open>i\<close>. The loop \<open>for (i = length - 1; i > 0; i--)\<close> swaps \<open>questions[i]\<close> and
  \<open>questions[j]\<close> with \<open>j = Math.floor(Math.random() * (i + 1))\<close>.
\<close>

fun shuffle_from :: "(nat \<Rightarrow> nat \<times> nat) \<Rightarrow> nat \<Rightarrow> 'a list \<Rightarrow> 'a list" where
  "shuffle_from rnd 0 qs = qs"
| "shuffle_from rnd (Suc k) qs =
     shuffle_from rnd k
       (let i = Suc k; j = floor_random_times (rnd i) (i + 1)
        in qs[i := qs ! j, j := qs ! i])"

text \<open>\<open>questions.forEach((question, index) => question.displayNumber = index + 1)\<close>\<close>

definition number_questions :: "question list \<Rightarrow> question list" where
  "number_questions qs =
     map (\<lambda>(index, q). q\<lparr>displayNumber := Some (int index + 1)\<rparr>) (enumerate 0 qs)"

definition shuffleQuestions :: "(nat \<Rightarrow> nat \<times> nat) \<Rightarrow> engine \<Rightarrow> engine" where
  "shuffleQuestions rnd e =
     (case data e of
        None \<Rightarrow> e
      | Some d \<Rightarrow>
          (case questions d of
             None \<Rightarrow> e
           | Some qs \<Rightarrow>
               e\<lparr>data := Some (d\<lparr>questions :=
                      Some (number_questions (shuffle_from rnd (length qs - 1) qs))\<rparr>)\<rparr>))"

subsection \<open>selectOption\<close>

text \<open>\<open>Array.prototype.indexOf\<close> and \<open>String.prototype.indexOf\<close>: the first position,
  or \<open>-1\<close>; \<open>splice(index, 1)\<close> removes the element at \<open>index\<close>.\<close>

fun indexOf :: "'a list \<Rightarrow> 'a \<Rightarrow> int" where
  "indexOf [] x = - 1"
| "indexOf (y # ys) x =
     (if y = x then 0 else (let r = indexOf ys x in if r = - 1 then - 1 else r + 1))"

fun str_indexOf :: "'a list \<Rightarrow> 'a list \<Rightarrow> int" where
  "str_indexOf [] sub = (if startsWith [] sub then 0 else - 1)"
| "str_indexOf (c # cs) sub =
     (if startsWith (c # cs) sub then 0
      else (let r = str_indexOf cs sub in if r = - 1 then - 1 else r + 1))"

definition splice1 :: "'a list \<Rightarrow> int \<Rightarrow> 'a list" where
  "splice1 xs index = take (nat index) xs @ drop (nat index + 1) xs"

text \<open>
  A call that throws gives \<open>Inl\<close> with the engine as it is at the throw; a call that
  returns gives \<open>Inr\<close>. \<open>engine_after\<close> is the engine a call leaves behind either way.
\<close>

definition engine_after :: "(error \<times> engine) + engine \<Rightarrow> engine" where
  "engine_after res = (case res of Inl (err, e) \<Rightarrow> e | Inr e \<Rightarrow> e)"

text \<open>
  \<open>renderSpecificQuestion\<close> starts with \<open>this.data.questions.find(...)\<close>, which throws
  when \<open>this.data\<close> is \<open>null\<close> or the manifest has no \<open>questions\<close>. After that it looks up
  the question and its card, returns when either is missing, and otherwise replaces the
  card by fresh markup with fresh listeners. With a manifest of the shape of the records
  and the container of the page in place nothing of this throws, and nothing of it assigns
  \<open>this.data\<close> or \<open>this.state\<close>. The markup is not part of the model.
\<close>

definition renderSpecificQuestion :: "int \<Rightarrow> engine \<Rightarrow> (error \<times> engine) + engine" where
  "renderSpecificQuestion questionId e =
     (case data e of
        None \<Rightarrow> Inl (TypeError, e)
      | Some d \<Rightarrow>
          (case questions d of
             None \<Rightarrow> Inl (TypeError, e)
           | Some qs \<Rightarrow>
               (case find (\<lambda>q. question_id q = questionId) qs of
                  None \<Rightarrow> Inr e
                | Some question \<Rightarrow> Inr e)))"

text \<open>
  \<open>selectOption\<close>. In the multi-select branch the guard \<open>!selectedAnswers[questionId]\<close>
  replaces a missing entry and the empty string by \<open>[]\<close>; \<open>selected\<close> is the entry after
  the guard. When it is a non-empty string (the question was answered as a single-select
  one), \<open>selected.splice\<close> and \<open>selected.push\<close> do not exist and the call throws before
  it has changed anything. Every other path ends with \<open>renderSpecificQuestion\<close>, after the
  entry was stored.
\<close>

definition selectOption ::
  "int \<Rightarrow> string \<Rightarrow> bool \<Rightarrow> engine \<Rightarrow> (error \<times> engine) + engine" where
  "selectOption questionId optionId isMultiSelect e =
     (if isMultiSelect
      then
        (let selected =
               (case selectedAnswers e questionId of
                  None \<Rightarrow> Multi []
                | Some (Single s) \<Rightarrow> if s = [] then Multi [] else Single s
                | Some (Multi xs) \<Rightarrow> Multi xs)
         in case selected of
              Multi xs \<Rightarrow>
                (let index = indexOf xs optionId
                 in renderSpecificQuestion questionId
                      (if index > - 1
                       then e\<lparr>selectedAnswers :=
                                (selectedAnswers e)(questionId \<mapsto> Multi (splice1 xs index))\<rparr>
                       else if length xs < 2
                       then e\<lparr>selectedAnswers :=
                                (selectedAnswers e)(questionId \<mapsto> Multi (xs @ [optionId]))\<rparr>
                       else e\<lparr>selectedAnswers :=
                                (selectedAnswers e)(questionId \<mapsto> Multi xs)\<rparr>))
            | Single s \<Rightarrow>
                (let index = str_indexOf s optionId
                 in if index > - 1 then Inl (TypeError, e)
                    else if length s < 2 then Inl (TypeError, e)
                    else renderSpecificQuestion questionId e))
      else renderSpecificQuestion questionId
             (e\<lparr>selectedAnswers := (selectedAnswers e)(questionId \<mapsto> Single optionId)\<rparr>))"

text \<open>\<open>isSelected\<close> as \<open>renderOption\<close> computes it from the question's entry.\<close>

definition isSelected :: "bool \<Rightarrow> answer option \<Rightarrow> string \<Rightarrow> bool" where
  "isSelected isMultiSelect selected optionId =
     (if isMultiSelect
      then (case selected of Some (Multi xs) \<Rightarrow> optionId \<in> set xs | _ \<Rightarrow> False)
      else selected = Some (Single optionId))"

text \<open>
  A sequence of clicks, each the \<open>(questionId, optionId, isMultiSelect)\<close> its listener
  passes to \<open>selectOption\<close>. A listener that throws ends there; the engine stays as it was
  at the throw, and the next click is handled as usual.
\<close>

fun clicks :: "engine \<Rightarrow> (int \<times> string \<times> bool) list \<Rightarrow> engine" where
  "clicks e [] = e"
| "clicks e ((questionId, optionId, isMultiSelect) # cs) =
     clicks (engine_after (selectOption questionId optionId isMultiSelect e)) cs"

subsection \<open>loadFromJSON\<close>

text \<open>
  \<open>loadFromJSON\<close>: \<open>fetched\<close> is the manifest, \<open>None\<close> when the request fails, the
  response is not OK or its body is not JSON (the \<open>catch\<close> branch, which only writes the
  error panel). On success the manifest is stored, shuffled and rendered; the markup is
  not part of the model.
\<close>

definition loadFromJSON :: "(nat \<Rightarrow> nat \<times> nat) \<Rightarrow> kc_data option \<Rightarrow> engine \<Rightarrow> engine" where
  "loadFromJSON rnd fetched e =
     (case fetched of
        None \<Rightarrow> e
      | Some d \<Rightarrow> shuffleQuestions rnd (e\<lparr>data := Some d\<rparr>))"

text \<open>
  The inputs on which the definitions are evaluated below: a manifest with a multi-select
  question (id 1, options A, B, C) and two single-select questions (ids 2 and 3), and the
  engine that has loaded it with every draw of \<open>Math.random()\<close> the double
  \<open>0.3333333333333333\<close>, which is \<open>6004799503160661 / 2 ^ 54\<close>.
\<close>

definition example_quiz :: kc_data where
  "example_quiz =
     \<lparr>questions = Some
        [\<lparr>question_id = 1, question_text = ''Pick two'', multiSelect = True,
          question_options =
            [\<lparr>option_id = ''A'', option_text = ''a'', isCorrect = True, explanation = []\<rparr>,
             \<lparr>option_id = ''B'', option_text = ''b'', isCorrect = True, explanation = []\<rparr>,
             \<lparr>option_id = ''C'', option_text = ''c'', isCorrect = False, explanation = []\<rparr>],
          displayNumber = None\<rparr>,
         \<lparr>question_id = 2, question_text = ''Pick one'', multiSelect = False,
          question_options =
            [\<lparr>option_id = ''A'', option_text = ''a'', isCorrect = True, explanation = []\<rparr>,
             \<lparr>option_id = ''B'', option_text = ''b'', isCorrect = False, explanation = []\<rparr>],
          displayNumber = None\<rparr>,
         \<lparr>question_id = 3, question_text = ''Pick another'', multiSelect = False,
          question_options =
            [\<lparr>option_id = ''A'', option_text = ''a'', isCorrect = False, explanation = []\<rparr>,
             \<lparr>option_id = ''B'', option_text = ''b'', isCorrect = True, explanation = []\<rparr>],
          displayNumber = None\<rparr>]\<rparr>"

definition example_engine :: engine where
  "example_engine = loadFromJSON (\<lambda>i. (6004799503160661, 54)) (Some example_quiz) new_engine"

section \<open>Knowledge check list (the catalog page script)\<close>

text \<open>
  \<open>Array.prototype.sort\<close> is a built-in of the language: a stable sort (ECMAScript 2019)
  by the comparator, whose result is positive when its first argument goes after the
  second. It is modelled by insertion from the right, which is stable.
\<close>

fun insert_by :: "('a \<Rightarrow> 'a \<Rightarrow> int) \<Rightarrow> 'a \<Rightarrow> 'a list \<Rightarrow> 'a list" where
  "insert_by cmp x [] = [x]"
| "insert_by cmp x (y # ys) = (if cmp x y > 0 then y # insert_by cmp x ys else x # y # ys)"

definition js_sort :: "('a \<Rightarrow> 'a \<Rightarrow> int) \<Rightarrow> 'a list \<Rightarrow> 'a list" where
  "js_sort cmp xs = foldr (insert_by cmp) xs []"

text \<open>Without a comparator, \<open>sort()\<close> compares strings by their code units,
  lexicographically.\<close>

definition defaultCompare :: "string \<Rightarrow> string \<Rightarrow> int" where
  "defaultCompare x y = (if x < y then - 1 else if y < x then 1 else 0)"

text \<open>
  The spec's "alphabetically ordered", for ASCII strings: in ascending dictionary order,
  where the case of a letter does not count.
\<close>

definition alphabetically_sorted :: "string list \<Rightarrow> bool" where
  "alphabetically_sorted xs = sorted (map ascii_toLowerCase xs)"

text \<open>\<open>[...new Set(xs)]\<close>: the distinct elements, each at its first occurrence.\<close>

definition new_Set :: "'a list \<Rightarrow> 'a list" where
  "new_Set xs = foldl (\<lambda>acc x. if x \<in> set acc then acc else acc @ [x]) [] xs"

record kc_entry =
  title :: string
  topic :: string
  kc_file :: string

datatype kc_view = Loading | NoneFound | KCCards "kc_entry list" | KCLoadError

text \<open>\<open>topicFilter\<close> holds the options of the dropdown, each with its value and its label.\<close>

record kc_list =
  kcData :: "kc_entry list"
  filteredData :: "kc_entry list"
  topicFilter :: "(string \<times> string) list"
  kcListContainer :: kc_view

definition renderKCList :: "kc_list \<Rightarrow> kc_list" where
  "renderKCList st =
     (if length (filteredData st) = 0 then st\<lparr>kcListContainer := NoneFound\<rparr>
      else st\<lparr>kcListContainer := KCCards (filteredData st)\<rparr>)"

definition populateTopicFilter :: "kc_list \<Rightarrow> kc_list" where
  "populateTopicFilter st =
     (let topics = js_sort defaultCompare (new_Set (map topic (kcData st)))
      in st\<lparr>topicFilter := ([], ''All Topics'') # map (\<lambda>t. (t, t)) topics\<rparr>)"

text \<open>
  The comparator of \<open>sortKCs\<close>; \<open>localeCompare a b\<close> stands for \<open>a.localeCompare(b)\<close>,
  and \<open>x || y\<close> on numbers is \<open>y\<close> when \<open>x\<close> is \<open>0\<close>.
\<close>

definition compareKCs :: "(string \<Rightarrow> string \<Rightarrow> int) \<Rightarrow> string \<Rightarrow> kc_entry \<Rightarrow> kc_entry \<Rightarrow> int" where
  "compareKCs localeCompare sortValue a b =
     (if sortValue = ''title-asc'' then localeCompare (title a) (title b)
      else if sortValue = ''title-desc'' then localeCompare (title b) (title a)
      else if sortValue = ''topic-asc''
      then (let r = localeCompare (topic a) (topic b)
            in if r \<noteq> 0 then r else localeCompare (title a) (title b))
      else if sortValue = ''topic-desc''
      then (let r = localeCompare (topic b) (topic a)
            in if r \<noteq> 0 then r else localeCompare (title a) (title b))
      else 0)"

text \<open>\<open>sortKCs\<close>: \<open>sortValue\<close> is the value of the \<open>sortSelect\<close> control.\<close>

definition sortKCs :: "(string \<Rightarrow> string \<Rightarrow> int) \<Rightarrow> string \<Rightarrow> kc_list \<Rightarrow> kc_list" where
  "sortKCs localeCompare sortValue st =
     renderKCList
       (st\<lparr>filteredData := js_sort (compareKCs localeCompare sortValue) (filteredData st)\<rparr>)"

section \<open>Properties of the theme manager\<close>

text \<open>
  Claim C9. Whatever the \<open>data-theme\<close> attribute holds, \<open>toggleTheme\<close> sets and persists
  \<open>light\<close> unless the attribute is exactly \<open>light\<close>, in which case it sets and persists
  \<open>dark\<close>. This covers a value that \<open>initTheme\<close> copied from storage without validating
  it: one toggle brings it to \<open>light\<close>. The result is always one of the two themes.
\<close>

theorem toggleTheme_normalizes:
  "(dataTheme st \<noteq> Some ''light'' \<longrightarrow>
      dataTheme (toggleTheme st) = Some ''light'' \<and> storedTheme (toggleTheme st) = Some ''light'')
   \<and> (dataTheme st = Some ''light'' \<longrightarrow>
      dataTheme (toggleTheme st) = Some ''dark'' \<and> storedTheme (toggleTheme st) = Some ''dark'')
   \<and> (storedTheme st = Some v \<and> v \<noteq> [] \<and> v \<noteq> ''light'' \<longrightarrow>
      dataTheme (initTheme st) = Some v \<and>
      dataTheme (toggleTheme (initTheme st)) = Some ''light'' \<and>
      storedTheme (toggleTheme (initTheme st)) = Some ''light'')
   \<and> dataTheme (toggleTheme st) \<in> {Some ''light'', Some ''dark''}"
  by (simp add: toggleTheme_def initTheme_def Let_def)

theorem toggleTheme_normalizes_witness:
  "storedTheme \<lparr>dataTheme = None, storedTheme = Some ''solarized''\<rparr> = Some ''solarized''
   \<and> dataTheme (initTheme \<lparr>dataTheme = None, storedTheme = Some ''solarized''\<rparr>)
       = Some ''solarized''
   \<and> dataTheme (initTheme \<lparr>dataTheme = None, storedTheme = Some ''solarized''\<rparr>) \<noteq> Some ''light''
   \<and> dataTheme (toggleTheme (initTheme \<lparr>dataTheme = None, storedTheme = Some ''solarized''\<rparr>))
       = Some ''light''
   \<and> storedTheme (toggleTheme (initTheme \<lparr>dataTheme = None, storedTheme = Some ''solarized''\<rparr>))
       = Some ''light''
   \<and> dataTheme (toggleTheme \<lparr>dataTheme = Some ''light'', storedTheme = Some ''light''\<rparr>)
       = Some ''dark''"
  using toggleTheme_normalizes [of "\<lparr>dataTheme = None, storedTheme = Some ''solarized''\<rparr>"
          "''solarized''"]
        toggleTheme_normalizes [of "\<lparr>dataTheme = Some ''light'', storedTheme = Some ''light''\<rparr>"
          "''light''"]
  by (simp add: initTheme_def)

section \<open>Properties of the image gallery\<close>

lemma loadGallery_state:
  "allImages (loadGallery g) = allImages g"
  "filteredImages (loadGallery g) = filteredImages g"
  "currentImageIndex (loadGallery g) = currentImageIndex g"
  by (simp_all add: loadGallery_def)

text \<open>
  Claim C4. In a gallery of \<open>N \<ge> 1\<close> filtered images with the current index \<open>i\<close> in
  \<open>0 .. N - 1\<close>, \<open>navigateImage(-1)\<close> returns normally with index \<open>N - 1\<close> when \<open>i = 0\<close>
  and \<open>i - 1\<close> otherwise, and \<open>navigateImage(+1)\<close> returns normally with index \<open>0\<close> when
  \<open>i = N - 1\<close> and \<open>i + 1\<close> otherwise.
\<close>

theorem navigateImage_wraparound:
  assumes "length (filteredImages g) = N" and "1 \<le> N"
    and "0 \<le> i" and "i < int N" and "currentImageIndex g = i"
  shows "(\<exists>g'. navigateImage (- 1) g = Inr g' \<and>
               currentImageIndex g' = (if i = 0 then int N - 1 else i - 1))
       \<and> (\<exists>g'. navigateImage 1 g = Inr g' \<and>
               currentImageIndex g' = (if i = int N - 1 then 0 else i + 1))"
  using assms by (auto simp: navigateImage_def at_index_def Let_def)

theorem navigateImage_wraparound_witness:
  "length (filteredImages (initial_gallery\<lparr>filteredImages :=
       [\<lparr>name = ''a'', file_path = ''n/a.png'', folder = ''N''\<rparr>,
        \<lparr>name = ''b'', file_path = ''n/b.png'', folder = ''N''\<rparr>,
        \<lparr>name = ''c'', file_path = ''n/c.png'', folder = ''N''\<rparr>]\<rparr>)) = 3
   \<and> (1::nat) \<le> 3 \<and> (0::int) \<le> 0 \<and> (0::int) < int 3
   \<and> currentImageIndex (initial_gallery\<lparr>filteredImages :=
       [\<lparr>name = ''a'', file_path = ''n/a.png'', folder = ''N''\<rparr>,
        \<lparr>name = ''b'', file_path = ''n/b.png'', folder = ''N''\<rparr>,
        \<lparr>name = ''c'', file_path = ''n/c.png'', folder = ''N''\<rparr>]\<rparr>) = 0
   \<and> (\<exists>g'. navigateImage (- 1) (initial_gallery\<lparr>filteredImages :=
       [\<lparr>name = ''a'', file_path = ''n/a.png'', folder = ''N''\<rparr>,
        \<lparr>name = ''b'', file_path = ''n/b.png'', folder = ''N''\<rparr>,
        \<lparr>name = ''c'', file_path = ''n/c.png'', folder = ''N''\<rparr>]\<rparr>) = Inr g'
        \<and> currentImageIndex g' = 2)"
  using navigateImage_wraparound [of "initial_gallery\<lparr>filteredImages :=
       [\<lparr>name = ''a'', file_path = ''n/a.png'', folder = ''N''\<rparr>,
        \<lparr>name = ''b'', file_path = ''n/b.png'', folder = ''N''\<rparr>,
        \<lparr>name = ''c'', file_path = ''n/c.png'', folder = ''N''\<rparr>]\<rparr>" 3 0]
  by (simp add: initial_gallery_def)

text \<open>
  Claim C8. Filtering with the same term twice gives the same state as filtering once:
  each call computes \<open>filteredImages\<close> from \<open>allImages\<close>, which it leaves as it is, and
  not from the previous \<open>filteredImages\<close>.
\<close>

theorem filterImages_idempotent:
  "filterImages lower s (filterImages lower s g) = filterImages lower s g
   \<and> filteredImages (filterImages lower s g) =
       filter (\<lambda>img. str_includes (lower (name img)) (lower s) \<or>
                      str_includes (lower (folder img)) (lower s)) (allImages g)
   \<and> allImages (filterImages lower s g) = allImages g"
  by (simp add: filterImages_def loadGallery_def Let_def)

lemma find_filter_Cons: "filter P xs = y # ys \<Longrightarrow> find P xs = Some y"
  by (induction xs) (auto split: if_splits)

lemma find_filter_Nil: "filter P xs = [] \<Longrightarrow> find P xs = None"
  by (induction xs) (auto split: if_splits)

text \<open>
  Claim C5 (as stated) fails where the one matching note has \<open>hasImages\<close> false: the
  guard \<open>note && note.hasImages && note.images\<close> skips it, and the list stays empty
  although the note carries an image.
\<close>

theorem loadImages_hasImages_counterexample:
  "filter (\<lambda>n. Some (note_folder n) = Some ''aws'')
        (manifest_notes \<lparr>manifest_notes =
           [\<lparr>note_folder = ''aws'', note_title = ''AWS'', hasImages = False,
             images = Some [\<lparr>img_name = ''diagram'', img_file = ''d.png''\<rparr>]\<rparr>]\<rparr>)
       = [\<lparr>note_folder = ''aws'', note_title = ''AWS'', hasImages = False,
           images = Some [\<lparr>img_name = ''diagram'', img_file = ''d.png''\<rparr>]\<rparr>]
   \<and> allImages (loadImages (Some ''aws'')
        (Some \<lparr>manifest_notes =
           [\<lparr>note_folder = ''aws'', note_title = ''AWS'', hasImages = False,
             images = Some [\<lparr>img_name = ''diagram'', img_file = ''d.png''\<rparr>]\<rparr>]\<rparr>)
        initial_gallery) = []
   \<and> \<lparr>name = ''diagram'', file_path = ''aws/d.png'', folder = ''AWS''\<rparr> \<notin>
       set (allImages (loadImages (Some ''aws'')
        (Some \<lparr>manifest_notes =
           [\<lparr>note_folder = ''aws'', note_title = ''AWS'', hasImages = False,
             images = Some [\<lparr>img_name = ''diagram'', img_file = ''d.png''\<rparr>]\<rparr>]\<rparr>)
        initial_gallery))"
  by (simp add: loadImages_def loadGallery_def Let_def initial_gallery_def)

text \<open>
  Claim C5 (amended). For a folder parameter other than \<open>all\<close> and a manifest that was
  fetched: when exactly one note has that folder, declares \<open>hasImages\<close> and carries an
  \<open>images\<close> list, the image list is that list with each \<open>file\<close> the note's folder, a
  slash and the image's file, and each \<open>folder\<close> the note's title, and the page does not
  show the load error; when the one matching note does not declare \<open>hasImages\<close> or has no
  \<open>images\<close>, and when no note matches, the list is empty and the page shows
  "No images found", not the load error.
\<close>

theorem loadImages_folder:
  assumes "folderParam \<noteq> Some ''all''"
  shows "(filter (\<lambda>n. Some (note_folder n) = folderParam) (manifest_notes mf) = [n]
            \<and> hasImages n \<and> images n = Some imgs \<longrightarrow>
          allImages (loadImages folderParam (Some mf) initial_gallery)
            = map (\<lambda>img. \<lparr>name = img_name img,
                           file_path = note_folder n @ ''/'' @ img_file img,
                           folder = note_title n\<rparr>) imgs
          \<and> filteredImages (loadImages folderParam (Some mf) initial_gallery)
            = allImages (loadImages folderParam (Some mf) initial_gallery)
          \<and> galleryHtml (loadImages folderParam (Some mf) initial_gallery) \<noteq> LoadError)
       \<and> (filter (\<lambda>n. Some (note_folder n) = folderParam) (manifest_notes mf) = [n]
            \<and> (\<not> hasImages n \<or> images n = None) \<longrightarrow>
          allImages (loadImages folderParam (Some mf) initial_gallery) = []
          \<and> galleryHtml (loadImages folderParam (Some mf) initial_gallery) = NoImagesFound)
       \<and> (filter (\<lambda>n. Some (note_folder n) = folderParam) (manifest_notes mf) = [] \<longrightarrow>
          allImages (loadImages folderParam (Some mf) initial_gallery) = []
          \<and> filteredImages (loadImages folderParam (Some mf) initial_gallery) = []
          \<and> galleryHtml (loadImages folderParam (Some mf) initial_gallery) = NoImagesFound)"
proof (intro conjI impI)
  assume h: "filter (\<lambda>n. Some (note_folder n) = folderParam) (manifest_notes mf) = [n]
            \<and> hasImages n \<and> images n = Some imgs"
  then have f: "find (\<lambda>n. Some (note_folder n) = folderParam) (manifest_notes mf) = Some n"
    by (simp add: find_filter_Cons)
  show "allImages (loadImages folderParam (Some mf) initial_gallery)
            = map (\<lambda>img. \<lparr>name = img_name img,
                           file_path = note_folder n @ ''/'' @ img_file img,
                           folder = note_title n\<rparr>) imgs"
    using assms h f by (simp add: loadImages_def loadGallery_state entry_of_def Let_def)
  show "filteredImages (loadImages folderParam (Some mf) initial_gallery)
            = allImages (loadImages folderParam (Some mf) initial_gallery)"
    using assms h f by (simp add: loadImages_def loadGallery_state Let_def)
  show "galleryHtml (loadImages folderParam (Some mf) initial_gallery) \<noteq> LoadError"
    using assms h f by (simp add: loadImages_def loadGallery_def Let_def)
next
  assume h: "filter (\<lambda>n. Some (note_folder n) = folderParam) (manifest_notes mf) = [n]
            \<and> (\<not> hasImages n \<or> images n = None)"
  then have f: "find (\<lambda>n. Some (note_folder n) = folderParam) (manifest_notes mf) = Some n"
    by (simp add: find_filter_Cons)
  show "allImages (loadImages folderParam (Some mf) initial_gallery) = []"
    using assms h f by (auto simp: loadImages_def loadGallery_state Let_def initial_gallery_def)
  show "galleryHtml (loadImages folderParam (Some mf) initial_gallery) = NoImagesFound"
    using assms h f by (auto simp: loadImages_def loadGallery_def Let_def initial_gallery_def)
next
  assume h: "filter (\<lambda>n. Some (note_folder n) = folderParam) (manifest_notes mf) = []"
  then have f: "find (\<lambda>n. Some (note_folder n) = folderParam) (manifest_notes mf) = None"
    by (rule find_filter_Nil)
  show "allImages (loadImages folderParam (Some mf) initial_gallery) = []"
    using assms f by (simp add: loadImages_def loadGallery_state Let_def initial_gallery_def)
  show "filteredImages (loadImages folderParam (Some mf) initial_gallery) = []"
    using assms f by (simp add: loadImages_def loadGallery_state Let_def initial_gallery_def)
  show "galleryHtml (loadImages folderParam (Some mf) initial_gallery) = NoImagesFound"
    using assms f by (simp add: loadImages_def loadGallery_def Let_def initial_gallery_def)
qed

theorem loadImages_folder_witness:
  "Some ''aws'' \<noteq> Some ''all''
   \<and> filter (\<lambda>n. Some (note_folder n) = Some ''aws'')
        (manifest_notes \<lparr>manifest_notes =
           [\<lparr>note_folder = ''aws'', note_title = ''AWS'', hasImages = True,
             images = Some [\<lparr>img_name = ''diagram'', img_file = ''d.png''\<rparr>]\<rparr>]\<rparr>)
       = [\<lparr>note_folder = ''aws'', note_title = ''AWS'', hasImages = True,
           images = Some [\<lparr>img_name = ''diagram'', img_file = ''d.png''\<rparr>]\<rparr>]
   \<and> allImages (loadImages (Some ''aws'')
        (Some \<lparr>manifest_notes =
           [\<lparr>note_folder = ''aws'', note_title = ''AWS'', hasImages = True,
             images = Some [\<lparr>img_name = ''diagram'', img_file = ''d.png''\<rparr>]\<rparr>]\<rparr>)
        initial_gallery)
       = [\<lparr>name = ''diagram'', file_path = ''aws/d.png'', folder = ''AWS''\<rparr>]"
  using loadImages_folder [of "Some ''aws''"
        "\<lparr>manifest_notes =
           [\<lparr>note_folder = ''aws'', note_title = ''AWS'', hasImages = True,
             images = Some [\<lparr>img_name = ''diagram'', img_file = ''d.png''\<rparr>]\<rparr>]\<rparr>"
        "\<lparr>note_folder = ''aws'', note_title = ''AWS'', hasImages = True,
             images = Some [\<lparr>img_name = ''diagram'', img_file = ''d.png''\<rparr>]\<rparr>"
        "[\<lparr>img_name = ''diagram'', img_file = ''d.png''\<rparr>]"]
  by simp

text \<open>
  Claim C10. \<open>filterImages\<close> leaves \<open>currentImageIndex\<close> as it is. So after a
  gallery of two images was loaded and the lightbox opened at index 1, a filter that keeps
  one image leaves the index at 1, which is not below the length of the filtered list: the
  list has no entry there.
\<close>

theorem filterImages_keeps_index:
  "currentImageIndex (filterImages lower s g) = currentImageIndex g
   \<and> (\<exists>g1. openLightbox 1
              (loadImages (Some ''n'')
                 (Some \<lparr>manifest_notes =
                    [\<lparr>note_folder = ''n'', note_title = ''N'', hasImages = True,
                      images = Some [\<lparr>img_name = ''alpha'', img_file = ''a.png''\<rparr>,
                                     \<lparr>img_name = ''beta'', img_file = ''b.png''\<rparr>]\<rparr>]\<rparr>)
                 initial_gallery) = Inr g1
        \<and> filteredImages g1
            = [\<lparr>name = ''alpha'', file_path = ''n/a.png'', folder = ''N''\<rparr>,
               \<lparr>name = ''beta'', file_path = ''n/b.png'', folder = ''N''\<rparr>]
        \<and> currentImageIndex g1 = 1
        \<and> filteredImages (filterImages ascii_toLowerCase ''Alpha'' g1)
            = [\<lparr>name = ''alpha'', file_path = ''n/a.png'', folder = ''N''\<rparr>]
        \<and> currentImageIndex (filterImages ascii_toLowerCase ''Alpha'' g1) = 1
        \<and> int (length (filteredImages (filterImages ascii_toLowerCase ''Alpha'' g1)))
            \<le> currentImageIndex (filterImages ascii_toLowerCase ''Alpha'' g1)
        \<and> at_index (filteredImages (filterImages ascii_toLowerCase ''Alpha'' g1))
             (currentImageIndex (filterImages ascii_toLowerCase ''Alpha'' g1)) = None)"
  by (simp add: filterImages_def loadImages_def loadGallery_def entry_of_def Let_def
        openLightbox_def at_index_def initial_gallery_def ascii_toLowerCase_def
        ascii_lower_char_def)

section \<open>Properties of the knowledge check list\<close>

lemma insert_by_nonpos: "\<forall>y \<in> set ys. cmp x y \<le> 0 \<Longrightarrow> insert_by cmp x ys = x # ys"
  by (cases ys) auto

lemma js_sort_Nil: "js_sort cmp [] = []"
  by (simp add: js_sort_def)

lemma js_sort_Cons: "js_sort cmp (x # xs) = insert_by cmp x (js_sort cmp xs)"
  by (simp add: js_sort_def)

lemma js_sort_all_equal: "(\<And>a b. cmp a b = 0) \<Longrightarrow> js_sort cmp xs = xs"
  by (induction xs) (simp_all add: js_sort_Nil js_sort_Cons insert_by_nonpos)

lemma renderKCList_filteredData: "filteredData (renderKCList st) = filteredData st"
  by (simp add: renderKCList_def)

text \<open>
  Claim C6. With a sort value that is none of \<open>title-asc\<close>, \<open>title-desc\<close>, \<open>topic-asc\<close>,
  \<open>topic-desc\<close>, the comparator is \<open>0\<close> on every pair and \<open>sortKCs\<close> leaves
  \<open>filteredData\<close> in its order, whatever \<open>localeCompare\<close> computes.
\<close>

theorem sortKCs_unrecognized:
  assumes "sortValue \<notin> {''title-asc'', ''title-desc'', ''topic-asc'', ''topic-desc''}"
  shows "filteredData (sortKCs localeCompare sortValue st) = filteredData st"
proof -
  have "compareKCs localeCompare sortValue a b = 0" for a b
    using assms by (simp add: compareKCs_def)
  then have "js_sort (compareKCs localeCompare sortValue) (filteredData st) = filteredData st"
    by (rule js_sort_all_equal)
  then show ?thesis
    by (simp add: sortKCs_def renderKCList_filteredData)
qed

theorem sortKCs_unrecognized_witness:
  "''newest'' \<notin> {''title-asc'', ''title-desc'', ''topic-asc'', ''topic-desc''}
   \<and> filteredData (sortKCs defaultCompare ''newest''
        \<lparr>kcData = [],
         filteredData = [\<lparr>title = ''S3 basics'', topic = ''S3'', kc_file = ''s3.json''\<rparr>,
                         \<lparr>title = ''EC2 basics'', topic = ''EC2'', kc_file = ''ec2.json''\<rparr>],
         topicFilter = [], kcListContainer = Loading\<rparr>)
     = [\<lparr>title = ''S3 basics'', topic = ''S3'', kc_file = ''s3.json''\<rparr>,
        \<lparr>title = ''EC2 basics'', topic = ''EC2'', kc_file = ''ec2.json''\<rparr>]"
  using sortKCs_unrecognized [of "''newest''" defaultCompare
        "\<lparr>kcData = [],
         filteredData = [\<lparr>title = ''S3 basics'', topic = ''S3'', kc_file = ''s3.json''\<rparr>,
                         \<lparr>title = ''EC2 basics'', topic = ''EC2'', kc_file = ''ec2.json''\<rparr>],
         topicFilter = [], kcListContainer = Loading\<rparr>"]
  by simp

lemma mset_insert_by: "mset (insert_by cmp x ys) = add_mset x (mset ys)"
  by (induction ys) auto

lemma mset_js_sort: "mset (js_sort cmp xs) = mset xs"
  by (induction xs) (simp_all add: js_sort_Nil js_sort_Cons mset_insert_by)

lemma set_insert_by: "set (insert_by cmp x ys) = insert x (set ys)"
  by (induction ys) auto

lemma sorted_insert_default: "sorted ys \<Longrightarrow> sorted (insert_by defaultCompare x ys)"
  by (induction ys) (auto simp: defaultCompare_def set_insert_by split: if_splits)

lemma sorted_js_sort_default: "sorted (js_sort defaultCompare xs)"
  by (induction xs) (simp_all add: js_sort_Nil js_sort_Cons sorted_insert_default)

lemma new_Set_foldl:
  "distinct acc \<Longrightarrow>
   distinct (foldl (\<lambda>acc x. if x \<in> set acc then acc else acc @ [x]) acc xs) \<and>
   set (foldl (\<lambda>acc x. if x \<in> set acc then acc else acc @ [x]) acc xs) = set acc \<union> set xs"
  by (induction xs arbitrary: acc) auto

lemma distinct_new_Set: "distinct (new_Set xs)"
  using new_Set_foldl [of "[]" xs] by (simp add: new_Set_def)

lemma set_new_Set: "set (new_Set xs) = set xs"
  using new_Set_foldl [of "[]" xs] by (simp add: new_Set_def)

text \<open>
  Claim C7 (as stated) fails on topics that differ in case: \<open>sort()\<close> without a comparator
  puts every upper-case letter before every lower-case one, so the topics \<open>apple, Banana\<close>
  come out as \<open>Banana, apple\<close>, which is not alphabetical order.
\<close>

theorem populateTopicFilter_alphabetical_counterexample:
  "topicFilter (populateTopicFilter
       \<lparr>kcData = [\<lparr>title = ''Fruit'', topic = ''apple'', kc_file = ''a.json''\<rparr>,
                  \<lparr>title = ''Herbs'', topic = ''Banana'', kc_file = ''b.json''\<rparr>],
        filteredData = [], topicFilter = [], kcListContainer = Loading\<rparr>)
     = [([], ''All Topics''), (''Banana'', ''Banana''), (''apple'', ''apple'')]
   \<and> \<not> alphabetically_sorted [''Banana'', ''apple'']
   \<and> alphabetically_sorted [''apple'', ''Banana'']"
  by (simp add: populateTopicFilter_def new_Set_def js_sort_def defaultCompare_def
        alphabetically_sorted_def ascii_toLowerCase_def ascii_lower_char_def)

text \<open>
  Claim C7 (amended). The options \<open>populateTopicFilter\<close> puts after "All Topics" are the
  topics of the catalog, each once, in ascending order of their code units: the order
  \<open>sort()\<close> uses without a comparator, the lexicographic order of the strings by character
  code, in which upper case comes before lower case. For the topics \<open>EC2, S3, EC2\<close> they
  are \<open>EC2, S3\<close>; for \<open>apple, Banana\<close> they are \<open>Banana, apple\<close>.
\<close>

theorem populateTopicFilter_sorted_distinct:
  "\<exists>topics. topicFilter (populateTopicFilter st) = ([], ''All Topics'') # map (\<lambda>t. (t, t)) topics
      \<and> sorted topics \<and> distinct topics \<and> set topics = topic ` set (kcData st)
      \<and> (map topic (kcData st) = [''EC2'', ''S3'', ''EC2''] \<longrightarrow> topics = [''EC2'', ''S3''])
      \<and> (map topic (kcData st) = [''apple'', ''Banana''] \<longrightarrow> topics = [''Banana'', ''apple''])"
proof -
  let ?ts = "js_sort defaultCompare (new_Set (map topic (kcData st)))"
  have 1: "topicFilter (populateTopicFilter st) = ([], ''All Topics'') # map (\<lambda>t. (t, t)) ?ts"
    by (simp add: populateTopicFilter_def)
  have 2: "sorted ?ts" by (rule sorted_js_sort_default)
  have "mset ?ts = mset (new_Set (map topic (kcData st)))" by (rule mset_js_sort)
  then have 3: "distinct ?ts" and 4: "set ?ts = topic ` set (kcData st)"
    using distinct_new_Set [of "map topic (kcData st)"] set_new_Set [of "map topic (kcData st)"]
    by (metis mset_eq_imp_distinct_iff, metis mset_eq_setD set_map)
  have 5: "map topic (kcData st) = [''EC2'', ''S3'', ''EC2''] \<longrightarrow> ?ts = [''EC2'', ''S3'']"
    by (simp add: new_Set_def js_sort_def defaultCompare_def)
  have 6: "map topic (kcData st) = [''apple'', ''Banana''] \<longrightarrow> ?ts = [''Banana'', ''apple'']"
    by (simp add: new_Set_def js_sort_def defaultCompare_def)
  from 1 2 3 4 5 6 show ?thesis by blast
qed

theorem populateTopicFilter_sorted_distinct_witness:
  "map topic (kcData
       \<lparr>kcData = [\<lparr>title = ''Instances'', topic = ''EC2'', kc_file = ''a.json''\<rparr>,
                  \<lparr>title = ''Buckets'', topic = ''S3'', kc_file = ''b.json''\<rparr>,
                  \<lparr>title = ''Volumes'', topic = ''EC2'', kc_file = ''c.json''\<rparr>],
        filteredData = [], topicFilter = [], kcListContainer = Loading\<rparr>)
     = [''EC2'', ''S3'', ''EC2'']
   \<and> topicFilter (populateTopicFilter
       \<lparr>kcData = [\<lparr>title = ''Instances'', topic = ''EC2'', kc_file = ''a.json''\<rparr>,
                  \<lparr>title = ''Buckets'', topic = ''S3'', kc_file = ''b.json''\<rparr>,
                  \<lparr>title = ''Volumes'', topic = ''EC2'', kc_file = ''c.json''\<rparr>],
        filteredData = [], topicFilter = [], kcListContainer = Loading\<rparr>)
     = [([], ''All Topics''), (''EC2'', ''EC2''), (''S3'', ''S3'')]
   \<and> topicFilter (populateTopicFilter
       \<lparr>kcData = [\<lparr>title = ''Fruit'', topic = ''apple'', kc_file = ''a.json''\<rparr>,
                  \<lparr>title = ''Herbs'', topic = ''Banana'', kc_file = ''b.json''\<rparr>],
        filteredData = [], topicFilter = [], kcListContainer = Loading\<rparr>)
     = [([], ''All Topics''), (''Banana'', ''Banana''), (''apple'', ''apple'')]"
  using populateTopicFilter_sorted_distinct [of
       "\<lparr>kcData = [\<lparr>title = ''Instances'', topic = ''EC2'', kc_file = ''a.json''\<rparr>,
                  \<lparr>title = ''Buckets'', topic = ''S3'', kc_file = ''b.json''\<rparr>,
                  \<lparr>title = ''Volumes'', topic = ''EC2'', kc_file = ''c.json''\<rparr>],
        filteredData = [], topicFilter = [], kcListContainer = Loading\<rparr>"]
    populateTopicFilter_sorted_distinct [of
       "\<lparr>kcData = [\<lparr>title = ''Fruit'', topic = ''apple'', kc_file = ''a.json''\<rparr>,
                  \<lparr>title = ''Herbs'', topic = ''Banana'', kc_file = ''b.json''\<rparr>],
        filteredData = [], topicFilter = [], kcListContainer = Loading\<rparr>"]
  by auto

section \<open>Properties of the knowledge check engine\<close>

subsection \<open>The index drawn by the shuffle\<close>

text \<open>
  The rounded product stays below \<open>n\<close>: rounding moves \<open>p = sig * n\<close> by at most half
  of \<open>2 ^ s\<close>, which is less than \<open>n\<close> because \<open>sig\<close> has at most 53 bits, and
  \<open>p + n\<close> does not exceed \<open>n * 2 ^ scale\<close> because the draw is below 1. So the index
  \<open>j\<close> is at most \<open>i\<close>.
\<close>

lemma excess_bits_lower: "excess_bits p \<noteq> 0 \<Longrightarrow> 2 ^ 52 * 2 ^ excess_bits p \<le> p"
proof (induction p rule: excess_bits.induct)
  case (1 p)
  show ?case
  proof (cases "p < 2 ^ 53")
    case True
    with "1.prems" show ?thesis by (simp add: excess_bits.simps)
  next
    case False
    then have eq: "excess_bits p = Suc (excess_bits (p div 2))"
      by (subst excess_bits.simps) simp
    show ?thesis
    proof (cases "excess_bits (p div 2) = 0")
      case True
      with eq False show ?thesis by simp
    next
      case nz: False
      with "1.IH" False have "2 ^ 52 * 2 ^ excess_bits (p div 2) \<le> p div 2" by simp
      then have "2 * (2 ^ 52 * 2 ^ excess_bits (p div 2)) \<le> 2 * (p div 2)" by simp
      also have "\<dots> \<le> p" by simp
      finally show ?thesis using eq by simp
    qed
  qed
qed

lemma round_half_even_close: "2 * (round_half_even p s * 2 ^ s) \<le> 2 * p + 2 ^ s"
proof -
  define P :: nat where "P = 2 ^ s"
  define q where "q = p div P"
  define r where "r = p mod P"
  have p: "p = q * P + r" by (simp add: q_def r_def)
  have "2 * (q * P) \<le> 2 * p + P" using p by simp
  moreover have "P \<le> 2 * r \<Longrightarrow> 2 * ((q + 1) * P) \<le> 2 * p + P"
    using p by (simp add: algebra_simps)
  ultimately show ?thesis
    unfolding round_half_even_def Let_def P_def [symmetric] q_def [symmetric] r_def [symmetric]
    by auto
qed

lemma floor_random_times_less:
  assumes "is_random_double r" and "0 < n"
  shows "floor_random_times r n < n"
proof -
  obtain sg scale where r: "r = (sg, scale)" by (cases r)
  from assms(1) r have sg: "sg < 2 ^ 53" "sg < 2 ^ scale"
    by (simp_all add: is_random_double_def)
  define p where "p = sg * n"
  define s where "s = excess_bits p"
  define R where "R = round_half_even p s * 2 ^ s"
  have 1: "2 * R \<le> 2 * p + 2 ^ s"
    unfolding R_def by (rule round_half_even_close)
  have 2: "(2::nat) ^ s < 2 * n"
  proof (cases "s = 0")
    case True
    with assms(2) show ?thesis by simp
  next
    case False
    then have "2 ^ 52 * 2 ^ s \<le> p"
      unfolding s_def by (rule excess_bits_lower)
    also have "p < 2 ^ 53 * n"
      unfolding p_def using sg(1) assms(2) by simp
    finally have "(2::nat) ^ 52 * 2 ^ s < 2 ^ 52 * (2 * n)" by simp
    then show ?thesis by (simp only: mult_less_cancel1)
  qed
  have "Suc sg \<le> 2 ^ scale" using sg(2) by simp
  then have "Suc sg * n \<le> 2 ^ scale * n" by (rule mult_le_mono1)
  then have 3: "p + n \<le> n * 2 ^ scale"
    by (simp add: p_def algebra_simps)
  from 1 2 3 have "R < n * 2 ^ scale" by linarith
  then have "R div 2 ^ scale < n"
    by (rule less_mult_imp_div_less)
  then show ?thesis
    by (simp add: floor_random_times_def r Let_def R_def s_def p_def)
qed

text \<open>
  At the draw \<open>0.3333333333333333\<close> the product with 3 is \<open>(2 ^ 54 - 1) / 2 ^ 54\<close>, a
  tie that rounds to \<open>1.0\<close>: the index is 1, where exact arithmetic would give 0. With
  this draw at every step a list \<open>a, b, c\<close> becomes \<open>c, a, b\<close>.
\<close>

lemma excess_bits_third_times_three: "excess_bits 18014398509481983 = 1"
  by (simp add: excess_bits.simps)

lemma excess_bits_third_times_two: "excess_bits 12009599006321322 = 1"
  by (simp add: excess_bits.simps)

lemma third_times_three: "floor_random_times (6004799503160661, 54) 3 = 1"
  by (simp add: floor_random_times_def round_half_even_def excess_bits_third_times_three)

lemma third_times_two: "floor_random_times (6004799503160661, 54) 2 = 0"
  by (simp add: floor_random_times_def round_half_even_def excess_bits_third_times_two)

lemma third_times_Suc:
  "floor_random_times (6004799503160661, 54) (Suc (Suc (Suc 0))) = Suc 0"
  "floor_random_times (6004799503160661, 54) (Suc (Suc 0)) = 0"
  using third_times_three third_times_two by (simp_all add: numeral_3_eq_3 numeral_2_eq_2)

lemma shuffle_at_third:
  "shuffle_from (\<lambda>i. (6004799503160661, 54)) (Suc (Suc 0)) [a, b, c] = [c, a, b]"
proof -
  have "shuffle_from (\<lambda>i. (6004799503160661, 54)) (Suc (Suc 0)) [a, b, c]
        = shuffle_from (\<lambda>i. (6004799503160661, 54)) (Suc 0) [a, c, b]"
    using third_times_three by (simp add: numeral_3_eq_3)
  also have "\<dots> = [c, a, b]"
    using third_times_two by (simp add: numeral_2_eq_2)
  finally show ?thesis .
qed

text \<open>The example engine after loading: the questions in the order 3, 1, 2, numbered 1 to 3,
  and no answer selected. Every engine that has loaded a manifest with questions holds
  them and has no answer selected.\<close>

lemma example_engine_loaded:
  "example_engine =
     \<lparr>data = Some \<lparr>questions = Some
        [\<lparr>question_id = 3, question_text = ''Pick another'', multiSelect = False,
          question_options =
            [\<lparr>option_id = ''A'', option_text = ''a'', isCorrect = False, explanation = []\<rparr>,
             \<lparr>option_id = ''B'', option_text = ''b'', isCorrect = True, explanation = []\<rparr>],
          displayNumber = Some 1\<rparr>,
         \<lparr>question_id = 1, question_text = ''Pick two'', multiSelect = True,
          question_options =
            [\<lparr>option_id = ''A'', option_text = ''a'', isCorrect = True, explanation = []\<rparr>,
             \<lparr>option_id = ''B'', option_text = ''b'', isCorrect = True, explanation = []\<rparr>,
             \<lparr>option_id = ''C'', option_text = ''c'', isCorrect = False, explanation = []\<rparr>],
          displayNumber = Some 2\<rparr>,
         \<lparr>question_id = 2, question_text = ''Pick one'', multiSelect = False,
          question_options =
            [\<lparr>option_id = ''A'', option_text = ''a'', isCorrect = True, explanation = []\<rparr>,
             \<lparr>option_id = ''B'', option_text = ''b'', isCorrect = False, explanation = []\<rparr>],
          displayNumber = Some 3\<rparr>]\<rparr>,
      selectedAnswers = Map.empty\<rparr>"
  by (simp add: example_engine_def loadFromJSON_def shuffleQuestions_def new_engine_def
        example_quiz_def third_times_Suc number_questions_def)

lemma loadFromJSON_loaded:
  assumes "questions d = Some qs"
  shows "\<exists>d' qs'. data (loadFromJSON rnd (Some d) new_engine) = Some d' \<and>
           questions d' = Some qs' \<and>
           selectedAnswers (loadFromJSON rnd (Some d) new_engine) = Map.empty"
  using assms by (simp add: loadFromJSON_def shuffleQuestions_def new_engine_def)

subsection \<open>selectOption\<close>

lemma indexOf_notin: "x \<notin> set xs \<Longrightarrow> indexOf xs x = - 1"
  by (induction xs) (auto simp: Let_def)

lemma indexOf_in: "x \<in> set xs \<Longrightarrow> 0 \<le> indexOf xs x \<and> splice1 xs (indexOf xs x) = remove1 x xs"
proof (induction xs)
  case Nil
  then show ?case by simp
next
  case (Cons y ys)
  show ?case
  proof (cases "y = x")
    case True
    then show ?thesis by (simp add: splice1_def)
  next
    case False
    with Cons have ih: "0 \<le> indexOf ys x" "splice1 ys (indexOf ys x) = remove1 x ys"
      by auto
    from ih(1) have "nat (indexOf ys x + 1) = Suc (nat (indexOf ys x))" by simp
    with False ih show ?thesis
      by (simp add: splice1_def Let_def)
  qed
qed

lemma engine_after_simps:
  "engine_after (Inl (err, e)) = e"
  "engine_after (Inr e) = e"
  by (simp_all add: engine_after_def)

lemma render_after: "engine_after (renderSpecificQuestion q e) = e"
  by (simp add: renderSpecificQuestion_def engine_after_def split: option.splits)

lemma render_loaded:
  "data e = Some d \<Longrightarrow> questions d = Some qs \<Longrightarrow> renderSpecificQuestion q e = Inr e"
  by (simp add: renderSpecificQuestion_def split: option.splits)

lemma selectOption_multi_after:
  assumes "selectedAnswers e q = Some (Multi xs) \<or> (selectedAnswers e q = None \<and> xs = [])"
  shows "engine_after (selectOption q opt True e) =
           e\<lparr>selectedAnswers := (selectedAnswers e)(q \<mapsto>
                  Multi (if opt \<in> set xs then remove1 opt xs
                         else if length xs < 2 then xs @ [opt] else xs))\<rparr>"
proof (cases "opt \<in> set xs")
  case True
  with indexOf_in [of opt xs] assms show ?thesis
    by (auto simp: selectOption_def Let_def render_after)
next
  case False
  with indexOf_notin [of opt xs] assms show ?thesis
    by (auto simp: selectOption_def Let_def render_after)
qed

lemma selectOption_multi:
  assumes "data e = Some d" and "questions d = Some qs"
    and "selectedAnswers e q = Some (Multi xs) \<or> (selectedAnswers e q = None \<and> xs = [])"
  shows "selectOption q opt True e =
           Inr (e\<lparr>selectedAnswers := (selectedAnswers e)(q \<mapsto>
                  Multi (if opt \<in> set xs then remove1 opt xs
                         else if length xs < 2 then xs @ [opt] else xs))\<rparr>)"
proof -
  have r: "renderSpecificQuestion q (e\<lparr>selectedAnswers := m\<rparr>) = Inr (e\<lparr>selectedAnswers := m\<rparr>)" for m
    using assms(1,2) by (simp add: render_loaded)
  show ?thesis
  proof (cases "opt \<in> set xs")
    case True
    with indexOf_in [of opt xs] assms(3) show ?thesis
      by (auto simp: selectOption_def Let_def r)
  next
    case False
    with indexOf_notin [of opt xs] assms(3) show ?thesis
      by (auto simp: selectOption_def Let_def r)
  qed
qed

lemma selectOption_single:
  assumes "data e = Some d" and "questions d = Some qs"
  shows "selectOption q opt False e =
           Inr (e\<lparr>selectedAnswers := (selectedAnswers e)(q \<mapsto> Single opt)\<rparr>)"
  using assms by (simp add: selectOption_def render_loaded)

lemma selectOption_other:
  "q' \<noteq> q \<Longrightarrow> selectedAnswers (engine_after (selectOption q' opt m e)) q = selectedAnswers e q"
  by (auto simp: selectOption_def Let_def render_after engine_after_simps
           split: option.splits answer.splits)

lemma selectOption_data: "data (engine_after (selectOption q opt m e)) = data e"
  by (auto simp: selectOption_def Let_def render_after engine_after_simps
           split: option.splits answer.splits)

lemma clicks_data: "data (clicks e cs) = data e"
proof (induction cs arbitrary: e)
  case Nil
  then show ?case by simp
next
  case (Cons c cs)
  obtain q opt m where "c = (q, opt, m)" by (cases c) auto
  with Cons show ?case by (simp add: selectOption_data)
qed

lemma selectOption_capped:
  assumes "case selectedAnswers e q of None \<Rightarrow> True | Some (Single s) \<Rightarrow> False
           | Some (Multi xs) \<Rightarrow> length xs \<le> 2 \<and> distinct xs"
  shows "case selectedAnswers (engine_after (selectOption q opt True e)) q of
           None \<Rightarrow> True | Some (Single s) \<Rightarrow> False
         | Some (Multi xs) \<Rightarrow> length xs \<le> 2 \<and> distinct xs"
proof (cases "selectedAnswers e q")
  case None
  then show ?thesis using selectOption_multi_after [of e q "[]" opt] by simp
next
  case (Some a)
  with assms obtain xs where xs: "selectedAnswers e q = Some (Multi xs)" "length xs \<le> 2" "distinct xs"
    by (cases a) auto
  have "length (remove1 opt xs) \<le> 2"
    using xs(2) by (metis le_trans length_remove1 diff_le_self)
  with xs show ?thesis using selectOption_multi_after [of e q xs opt] by auto
qed

lemma clicks_capped:
  assumes "\<forall>c \<in> set cs. fst c = q \<longrightarrow> snd (snd c)"
    and "case selectedAnswers e q of None \<Rightarrow> True | Some (Single s) \<Rightarrow> False
         | Some (Multi xs) \<Rightarrow> length xs \<le> 2 \<and> distinct xs"
  shows "case selectedAnswers (clicks e cs) q of None \<Rightarrow> True | Some (Single s) \<Rightarrow> False
         | Some (Multi xs) \<Rightarrow> length xs \<le> 2 \<and> distinct xs"
  using assms
proof (induction cs arbitrary: e)
  case Nil
  then show ?case by simp
next
  case (Cons c cs)
  obtain q' opt m where c: "c = (q', opt, m)" by (cases c) auto
  let ?e1 = "engine_after (selectOption q' opt m e)"
  have "case selectedAnswers ?e1 q of None \<Rightarrow> True | Some (Single s) \<Rightarrow> False
         | Some (Multi xs) \<Rightarrow> length xs \<le> 2 \<and> distinct xs"
  proof (cases "q' = q")
    case True
    with Cons.prems(1) c have "m" by simp
    with True selectOption_capped [OF Cons.prems(2), of opt] show ?thesis by simp
  next
    case False
    then show ?thesis
      using Cons.prems(2) selectOption_other [of q' q opt m e] by simp
  qed
  moreover have "\<forall>c \<in> set cs. fst c = q \<longrightarrow> snd (snd c)" using Cons.prems(1) by simp
  ultimately have "case selectedAnswers (clicks ?e1 cs) q of None \<Rightarrow> True | Some (Single s) \<Rightarrow> False
         | Some (Multi xs) \<Rightarrow> length xs \<le> 2 \<and> distinct xs"
    using Cons.IH by blast
  then show ?case using c by simp
qed

text \<open>
  Claim C1 (as stated) fails for a single-select question: \<open>selectOption\<close> stores the
  clicked option whatever the entry was, so a click on the selected option leaves it
  selected. Here question 2 of the loaded example is answered A and clicked on A again.
\<close>

theorem single_select_deselect_counterexample:
  "isSelected False (selectedAnswers (clicks example_engine [(2, ''A'', False)]) 2) ''A''
   \<and> selectOption 2 ''A'' False (clicks example_engine [(2, ''A'', False)])
       = Inr (clicks example_engine [(2, ''A'', False)])
   \<and> selectedAnswers (clicks example_engine [(2, ''A'', False), (2, ''A'', False)]) 2
       = Some (Single ''A'')
   \<and> isSelected False
        (selectedAnswers (clicks example_engine [(2, ''A'', False), (2, ''A'', False)]) 2) ''A''"
  by (simp add: selectOption_def renderSpecificQuestion_def engine_after_def
        example_engine_loaded isSelected_def)

text \<open>
  Claim C1 (amended). Let an engine have loaded a manifest with questions, with no answer
  selected. For a multi-select question (every click on it carries
  \<open>isMultiSelect = true\<close>), in any state reached from there by clicks, a click on a
  selected option returns normally and removes the option from the question's array: it
  is no longer selected. For a single-select question, in any state of an engine holding
  the manifest, a click on the selected option returns normally and leaves the state as it
  is: the option stays selected.
\<close>

theorem selectOption_on_selected:
  assumes "data e0 = Some d" and "questions d = Some qs"
    and "selectedAnswers e0 = Map.empty"
    and "\<forall>c \<in> set cs. fst c = q \<longrightarrow> snd (snd c)"
    and "data e = Some d"
  shows "(isSelected True (selectedAnswers (clicks e0 cs) q) opt \<longrightarrow>
            (\<exists>e' xs. selectedAnswers (clicks e0 cs) q = Some (Multi xs) \<and>
                   selectOption q opt True (clicks e0 cs) = Inr e' \<and>
                   selectedAnswers e' q = Some (Multi (remove1 opt xs)) \<and>
                   \<not> isSelected True (selectedAnswers e' q) opt))
       \<and> (isSelected False (selectedAnswers e q) opt \<longrightarrow>
            selectOption q opt False e = Inr e \<and>
            selectedAnswers e q = Some (Single opt))"
proof (intro conjI impI)
  let ?e = "clicks e0 cs"
  assume sel: "isSelected True (selectedAnswers ?e q) opt"
  have d: "data ?e = Some d" using assms(1) by (simp add: clicks_data)
  have "case selectedAnswers ?e q of None \<Rightarrow> True | Some (Single s) \<Rightarrow> False
        | Some (Multi xs) \<Rightarrow> length xs \<le> 2 \<and> distinct xs"
    by (rule clicks_capped [OF assms(4)]) (simp add: assms(3))
  with sel obtain xs where xs: "selectedAnswers ?e q = Some (Multi xs)" "distinct xs" "opt \<in> set xs"
    by (auto simp: isSelected_def split: option.splits answer.splits)
  let ?e' = "?e\<lparr>selectedAnswers := (selectedAnswers ?e)(q \<mapsto> Multi (remove1 opt xs))\<rparr>"
  have "selectOption q opt True ?e = Inr ?e'"
    using xs selectOption_multi [OF d assms(2), of q xs opt] by simp
  moreover have "selectedAnswers ?e' q = Some (Multi (remove1 opt xs))" by simp
  moreover have "\<not> isSelected True (selectedAnswers ?e' q) opt"
    using xs(2) by (simp add: isSelected_def)
  ultimately show "\<exists>e' xs. selectedAnswers ?e q = Some (Multi xs) \<and>
                   selectOption q opt True ?e = Inr e' \<and>
                   selectedAnswers e' q = Some (Multi (remove1 opt xs)) \<and>
                   \<not> isSelected True (selectedAnswers e' q) opt"
    using xs(1) by blast
next
  assume "isSelected False (selectedAnswers e q) opt"
  then have s: "selectedAnswers e q = Some (Single opt)" by (simp add: isSelected_def)
  then have "(selectedAnswers e)(q \<mapsto> Single opt) = selectedAnswers e" by (simp add: fun_upd_idem)
  then show "selectOption q opt False e = Inr e"
    using selectOption_single [OF assms(5,2), of q opt] by simp
  show "selectedAnswers e q = Some (Single opt)" by (rule s)
qed

theorem selectOption_on_selected_witness:
  "selectedAnswers example_engine = Map.empty
   \<and> isSelected True (selectedAnswers (clicks example_engine [(1, ''A'', True), (1, ''B'', True)]) 1) ''A''
   \<and> (\<exists>e'. selectOption 1 ''A'' True (clicks example_engine [(1, ''A'', True), (1, ''B'', True)]) = Inr e'
          \<and> selectedAnswers e' 1 = Some (Multi [''B'']))
   \<and> isSelected False (selectedAnswers (clicks example_engine [(2, ''A'', False)]) 2) ''A''
   \<and> selectOption 2 ''A'' False (clicks example_engine [(2, ''A'', False)])
       = Inr (clicks example_engine [(2, ''A'', False)])"
proof -
  obtain d qs where d: "data example_engine = Some d" and q: "questions d = Some qs"
    by (simp add: example_engine_loaded)
  have s0: "selectedAnswers example_engine = Map.empty"
    by (simp add: example_engine_loaded)
  have h: "\<forall>c \<in> set [(1, ''A'', True), (1, ''B'', True)]. fst c = (1::int) \<longrightarrow> snd (snd c)"
    by simp
  have h2: "\<forall>c \<in> set []. fst c = (2::int) \<longrightarrow> snd (snd (c :: int \<times> string \<times> bool))"
    by simp
  have d2: "data (clicks example_engine [(2, ''A'', False)]) = Some d"
    by (simp only: clicks_data d)
  have s1: "selectedAnswers (clicks example_engine [(1, ''A'', True), (1, ''B'', True)]) 1
            = Some (Multi [''A'', ''B''])"
    by (simp add: selectOption_def renderSpecificQuestion_def engine_after_def
          example_engine_loaded Let_def)
  then have m: "isSelected True
       (selectedAnswers (clicks example_engine [(1, ''A'', True), (1, ''B'', True)]) 1) ''A''"
    by (simp add: isSelected_def)
  have s2: "isSelected False (selectedAnswers (clicks example_engine [(2, ''A'', False)]) 2) ''A''"
    by (simp add: selectOption_def renderSpecificQuestion_def engine_after_def
          example_engine_loaded isSelected_def)
  from selectOption_on_selected [OF d q s0 h d, of "''A''"] m s1
  have a: "\<exists>e'. selectOption 1 ''A'' True (clicks example_engine [(1, ''A'', True), (1, ''B'', True)]) = Inr e'
          \<and> selectedAnswers e' 1 = Some (Multi [''B''])"
    by auto
  from selectOption_on_selected [OF d q s0 h2 d2, of "''A''"] s2
  have b: "selectOption 2 ''A'' False (clicks example_engine [(2, ''A'', False)])
       = Inr (clicks example_engine [(2, ''A'', False)])"
    by simp
  from s0 m a s2 b show ?thesis by blast
qed

text \<open>
  Claim C2. Let an engine have loaded a manifest with questions, with no answer selected.
  For a multi-select question (every click on it carries \<open>isMultiSelect = true\<close>),
  after any sequence of clicks on any questions its entry is absent or an array of at most
  2 distinct option ids, and a further click on it returns normally. In any state of an
  engine holding the manifest with two options selected, a click on a third one returns
  normally and changes nothing; after a click on one of the two has deselected it, a click
  on the new option adds it after the remaining one.
\<close>

theorem multi_select_cap:
  assumes "data e0 = Some d" and "questions d = Some qs"
    and "selectedAnswers e0 = Map.empty"
    and "\<forall>c \<in> set cs. fst c = q \<longrightarrow> snd (snd c)"
    and "data e = Some d"
  shows "(case selectedAnswers (clicks e0 cs) q of
            None \<Rightarrow> True
          | Some (Single s) \<Rightarrow> False
          | Some (Multi xs) \<Rightarrow> length xs \<le> 2 \<and> distinct xs)
       \<and> (\<exists>e'. selectOption q c True (clicks e0 cs) = Inr e')
       \<and> (selectedAnswers e q = Some (Multi [a, b]) \<and> c \<notin> {a, b} \<longrightarrow>
            selectOption q c True e = Inr e)
       \<and> (selectedAnswers e q = Some (Multi [a, b]) \<and> a \<noteq> b \<and> c \<notin> {a, b} \<longrightarrow>
            selectedAnswers (clicks e [(q, a, True), (q, c, True)]) q = Some (Multi [b, c]) \<and>
            selectedAnswers (clicks e [(q, b, True), (q, c, True)]) q = Some (Multi [a, c]))"
proof (intro conjI impI)
  show inv: "case selectedAnswers (clicks e0 cs) q of
            None \<Rightarrow> True
          | Some (Single s) \<Rightarrow> False
          | Some (Multi xs) \<Rightarrow> length xs \<le> 2 \<and> distinct xs"
    by (rule clicks_capped [OF assms(4)]) (simp add: assms(3))
  have d: "data (clicks e0 cs) = Some d" using assms(1) by (simp add: clicks_data)
  show "\<exists>e'. selectOption q c True (clicks e0 cs) = Inr e'"
  proof (cases "selectedAnswers (clicks e0 cs) q")
    case None
    then show ?thesis using selectOption_multi [OF d assms(2), of q "[]" c] by simp
  next
    case (Some an)
    with inv obtain xs where "selectedAnswers (clicks e0 cs) q = Some (Multi xs)"
      by (cases an) auto
    then show ?thesis using selectOption_multi [OF d assms(2), of q xs c] by simp
  qed
next
  assume h: "selectedAnswers e q = Some (Multi [a, b]) \<and> c \<notin> {a, b}"
  then have "(selectedAnswers e)(q \<mapsto> Multi [a, b]) = selectedAnswers e"
    by (simp add: fun_upd_idem)
  with h show "selectOption q c True e = Inr e"
    using selectOption_multi [OF assms(5,2), of q "[a, b]" c] by simp
next
  assume h: "selectedAnswers e q = Some (Multi [a, b]) \<and> a \<noteq> b \<and> c \<notin> {a, b}"
  have 1: "engine_after (selectOption q a True e) = e\<lparr>selectedAnswers := (selectedAnswers e)(q \<mapsto> Multi [b])\<rparr>"
    using h selectOption_multi_after [of e q "[a, b]" a] by simp
  have 2: "engine_after (selectOption q b True e) = e\<lparr>selectedAnswers := (selectedAnswers e)(q \<mapsto> Multi [a])\<rparr>"
    using h selectOption_multi_after [of e q "[a, b]" b] by auto
  have 3: "engine_after (selectOption q c True (e\<lparr>selectedAnswers := (selectedAnswers e)(q \<mapsto> Multi [x])\<rparr>))
          = e\<lparr>selectedAnswers := (selectedAnswers e)(q \<mapsto> Multi [x, c])\<rparr>" if "c \<noteq> x" for x
    using that selectOption_multi_after [of "e\<lparr>selectedAnswers := (selectedAnswers e)(q \<mapsto> Multi [x])\<rparr>" q "[x]" c]
    by simp
  show "selectedAnswers (clicks e [(q, a, True), (q, c, True)]) q = Some (Multi [b, c])"
    using h 1 3 [of b] by simp
  show "selectedAnswers (clicks e [(q, b, True), (q, c, True)]) q = Some (Multi [a, c])"
    using h 2 3 [of a] by simp
qed

theorem multi_select_cap_witness:
  "selectedAnswers example_engine = Map.empty
   \<and> selectedAnswers (clicks example_engine
        [(1, ''A'', True), (1, ''B'', True), (2, ''A'', False), (1, ''C'', True)]) 1
       = Some (Multi [''A'', ''B''])
   \<and> ''C'' \<notin> {''A'', ''B''}
   \<and> selectOption 1 ''C'' True (clicks example_engine [(1, ''A'', True), (1, ''B'', True)])
       = Inr (clicks example_engine [(1, ''A'', True), (1, ''B'', True)])
   \<and> selectedAnswers (clicks (clicks example_engine [(1, ''A'', True), (1, ''B'', True)])
        [(1, ''A'', True), (1, ''C'', True)]) 1 = Some (Multi [''B'', ''C''])"
proof -
  obtain d qs where d: "data example_engine = Some d" and q: "questions d = Some qs"
    by (simp add: example_engine_loaded)
  have s0: "selectedAnswers example_engine = Map.empty"
    by (simp add: example_engine_loaded)
  have h: "\<forall>c \<in> set [(1, ''A'', True), (1, ''B'', True), (2, ''A'', False), (1, ''C'', True)].
             fst c = (1::int) \<longrightarrow> snd (snd c)"
    by simp
  have d1: "data (clicks example_engine [(1, ''A'', True), (1, ''B'', True)]) = Some d"
    by (simp only: clicks_data d)
  have s1: "selectedAnswers (clicks example_engine [(1, ''A'', True), (1, ''B'', True)]) 1
            = Some (Multi [''A'', ''B''])"
    by (simp add: selectOption_def renderSpecificQuestion_def engine_after_def
          example_engine_loaded Let_def)
  have s4: "selectedAnswers (clicks example_engine
        [(1, ''A'', True), (1, ''B'', True), (2, ''A'', False), (1, ''C'', True)]) 1
       = Some (Multi [''A'', ''B''])"
    by (simp add: selectOption_def renderSpecificQuestion_def engine_after_def
          example_engine_loaded Let_def)
  have c: "''C'' \<notin> {''A'', ''B''}" by simp
  note t = multi_select_cap [OF d q s0 h d1, of "''C''" "''A''" "''B''"]
  from t s1 c have n: "selectOption 1 ''C'' True (clicks example_engine [(1, ''A'', True), (1, ''B'', True)])
       = Inr (clicks example_engine [(1, ''A'', True), (1, ''B'', True)])"
    by simp
  from t s1 c have r: "selectedAnswers (clicks (clicks example_engine [(1, ''A'', True), (1, ''B'', True)])
        [(1, ''A'', True), (1, ''C'', True)]) 1 = Some (Multi [''B'', ''C''])"
    by simp
  from s0 s4 c n r show ?thesis by blast
qed

subsection \<open>shuffleQuestions\<close>

lemma length_shuffle_from: "length (shuffle_from rnd k qs) = length qs"
  by (induction k arbitrary: qs) (simp_all add: Let_def)

lemma mset_shuffle_from:
  assumes "\<forall>i. is_random_double (rnd i)" and "k < length qs"
  shows "mset (shuffle_from rnd k qs) = mset qs"
  using assms(2)
proof (induction k arbitrary: qs)
  case 0
  then show ?case by simp
next
  case (Suc k)
  let ?j = "floor_random_times (rnd (Suc k)) (Suc k + 1)"
  have "?j < Suc k + 1"
    using assms(1) by (intro floor_random_times_less) simp_all
  with Suc.prems have j: "?j < length qs" by simp
  let ?qs = "qs[Suc k := qs ! ?j, ?j := qs ! Suc k]"
  have "mset ?qs = mset qs"
    using Suc.prems j by (simp add: mset_swap)
  moreover have "k < length ?qs" using Suc.prems by simp
  ultimately have "mset (shuffle_from rnd k ?qs) = mset qs"
    using Suc.IH [of ?qs] by simp
  then show ?case by (simp add: Let_def)
qed

lemma enumerate_ids:
  "map question_id (map (\<lambda>(index, q). q\<lparr>displayNumber := Some (int index + 1)\<rparr>) (enumerate n qs))
     = map question_id qs"
  by (induction qs arbitrary: n) simp_all

lemma enumerate_numbers:
  "map displayNumber (map (\<lambda>(index, q). q\<lparr>displayNumber := Some (int index + 1)\<rparr>) (enumerate n qs))
     = map (\<lambda>k. Some (int k)) [Suc n..<Suc n + length qs]"
proof (induction qs arbitrary: n)
  case Nil
  then show ?case by simp
next
  case (Cons q qs)
  let ?F = "\<lambda>(index, q). q\<lparr>displayNumber := Some (int index + 1)\<rparr>"
  have e: "Suc n + length (q # qs) = Suc (Suc n) + length qs" by simp
  have "Suc n < Suc (Suc n) + length qs" by simp
  then have "[Suc n..<Suc (Suc n) + length qs] = Suc n # [Suc (Suc n)..<Suc (Suc n) + length qs]"
    by (rule upt_conv_Cons)
  then have h: "[Suc n..<Suc n + length (q # qs)] = Suc n # [Suc (Suc n)..<Suc (Suc n) + length qs]"
    by (simp only: e)
  have "map displayNumber (map ?F (enumerate n (q # qs)))
          = Some (int (Suc n)) # map displayNumber (map ?F (enumerate (Suc n) qs))"
    by simp
  also have "\<dots> = Some (int (Suc n)) # map (\<lambda>k. Some (int k)) [Suc (Suc n)..<Suc (Suc n) + length qs]"
    by (simp only: Cons.IH)
  also have "\<dots> = map (\<lambda>k. Some (int k)) (Suc n # [Suc (Suc n)..<Suc (Suc n) + length qs])"
    by (simp only: list.map)
  also have "\<dots> = map (\<lambda>k. Some (int k)) [Suc n..<Suc n + length (q # qs)]"
    by (simp only: h)
  finally show ?case .
qed

lemma number_questions_ids: "map question_id (number_questions qs) = map question_id qs"
  unfolding number_questions_def by (rule enumerate_ids)

lemma number_questions_numbers:
  "map displayNumber (number_questions qs) = map (\<lambda>k. Some (int k)) [1..<Suc (length qs)]"
  unfolding number_questions_def using enumerate_numbers [of 0 qs] by simp

text \<open>
  Claim C3. Whatever doubles in \<open>[0, 1)\<close> are drawn, \<open>shuffleQuestions\<close> replaces a
  list of \<open>N\<close> questions by a list with the same multiset of ids, whose \<open>displayNumber\<close>
  fields are \<open>1, 2, ..., N\<close> in list order.
\<close>

theorem shuffleQuestions_permutes_and_numbers:
  assumes "\<forall>i. is_random_double (rnd i)"
    and "data e = Some d" and "questions d = Some qs"
  shows "\<exists>qs'. data (shuffleQuestions rnd e) = Some (d\<lparr>questions := Some qs'\<rparr>)
           \<and> mset (map question_id qs') = mset (map question_id qs)
           \<and> map displayNumber qs' = map (\<lambda>k. Some (int k)) [1..<Suc (length qs)]"
proof -
  let ?sh = "shuffle_from rnd (length qs - 1) qs"
  let ?qs' = "number_questions ?sh"
  have len: "length ?sh = length qs" by (rule length_shuffle_from)
  have m: "mset ?sh = mset qs"
  proof (cases qs)
    case Nil
    then show ?thesis by simp
  next
    case (Cons q qs0)
    then have "length qs - 1 < length qs" by simp
    then show ?thesis by (rule mset_shuffle_from [OF assms(1)])
  qed
  have "mset (map question_id ?qs') = mset (map question_id ?sh)"
    by (simp only: number_questions_ids)
  also have "\<dots> = mset (map question_id qs)"
    using m by (metis mset_map)
  finally have ids: "mset (map question_id ?qs') = mset (map question_id qs)" .
  have nums: "map displayNumber ?qs' = map (\<lambda>k. Some (int k)) [1..<Suc (length qs)]"
    using number_questions_numbers [of ?sh] len by simp
  have "data (shuffleQuestions rnd e) = Some (d\<lparr>questions := Some ?qs'\<rparr>)"
    using assms(2,3) by (simp add: shuffleQuestions_def)
  then show ?thesis using ids nums by blast
qed

theorem shuffleQuestions_permutes_and_numbers_witness:
  "(\<forall>i::nat. is_random_double (6004799503160661, 54))
   \<and> (\<exists>qs'. data (shuffleQuestions (\<lambda>i. (6004799503160661, 54))
                      \<lparr>data = Some example_quiz, selectedAnswers = Map.empty\<rparr>)
               = Some \<lparr>questions = Some qs'\<rparr>
          \<and> mset (map question_id qs') = mset [1, 2, 3]
          \<and> map displayNumber qs' = [Some 1, Some 2, Some 3])"
proof -
  have r: "\<forall>i::nat. is_random_double (6004799503160661, 54)"
    by (simp add: is_random_double_def)
  have d: "data \<lparr>data = Some example_quiz, selectedAnswers = Map.empty\<rparr> = Some example_quiz"
    by simp
  obtain qs where q: "questions example_quiz = Some qs"
    and ids: "map question_id qs = [1, 2, 3]"
    by (simp add: example_quiz_def)
  from ids have "length (map question_id qs) = 3" by simp
  then have len: "length qs = 3" by simp
  from shuffleQuestions_permutes_and_numbers [OF r d q] ids len
  have "\<exists>qs'. data (shuffleQuestions (\<lambda>i. (6004799503160661, 54))
                      \<lparr>data = Some example_quiz, selectedAnswers = Map.empty\<rparr>)
               = Some (example_quiz\<lparr>questions := Some qs'\<rparr>)
          \<and> mset (map question_id qs') = mset [1, 2, 3]
          \<and> map displayNumber qs' = [Some 1, Some 2, Some 3]"
    by (simp add: upt_rec)
  then show ?thesis using r by (simp add: example_quiz_def)
qed

end
